theory Spec2Isabelle
  imports Main "HOL-Library.Word"
begin

unbundle bit_operations_syntax

section \<open>Data model of package admin\<close>

text \<open>
  The development follows \<^verbatim>\<open>admin.go\<close> of package \<^verbatim>\<open>admin\<close> (the version with the
  \<^verbatim>\<open>OpenTTDServer\<close> struct, which \<^verbatim>\<open>openttd_multitool\<close> uses). Go's \<^verbatim>\<open>[]byte\<close> is a list
  of 8-bit words, Go's \<^verbatim>\<open>string\<close> a list of 8-bit characters, \<^verbatim>\<open>uint16\<close> and \<^verbatim>\<open>uint32\<close> are
  words, and \<^verbatim>\<open>int\<close> (64 bits on the supported platforms, never near its limits here) is
  \<open>int\<close> or \<open>nat\<close>.
\<close>

type_synonym byte = "8 word"

definition bytes_of_string :: "string \<Rightarrow> byte list" where
  \<comment> \<open>the conversion \<^verbatim>\<open>[]byte(s)\<close>\<close>
  "bytes_of_string s = map (\<lambda>c. of_nat (of_char c)) s"

definition string_of_bytes :: "byte list \<Rightarrow> string" where
  \<comment> \<open>the conversion \<^verbatim>\<open>string(b)\<close>\<close>
  "string_of_bytes b = map (\<lambda>x. char_of (unat x)) b"

text \<open>
  A run-time panic of the Go program. Nothing in the package recovers from a panic, so
  each one ends the process. \<open>BeyondLength\<close> stands for a slice expression \<^verbatim>\<open>b[lo:hi]\<close>
  with \<open>hi\<close> past \<^verbatim>\<open>len(b)\<close>: Go bounds such an expression by the capacity of the
  underlying buffer, which the allocator decides, so the program either panics or reads
  bytes that lie behind the payload. The model stops there and follows neither.
\<close>

datatype panic =
    IndexOutOfRange
  | SliceBoundsOutOfRange
  | BeyondLength
  | NilDereference
  | PanicMsg string

text \<open>
  The reduction of \<^verbatim>\<open>time.Time\<close> to what the package reads of it: \<^verbatim>\<open>Year()\<close>,
  \<^verbatim>\<open>Month()\<close> and \<^verbatim>\<open>Day()\<close>.
\<close>

record date =
  Year :: int
  Month :: int
  Day :: int

text \<open>
  The struct \<^verbatim>\<open>OpenTTDServer\<close>. The field \<open>connection\<close> is \<open>None\<close> for Go's \<^verbatim>\<open>nil\<close> and
  otherwise names the transport by the number of the dial that opened it. The two channels
  carry no data; what happens on them is recorded in \<open>signalled\<close>. The last three fields
  are observations of the program's effects, not fields of the struct: \<open>written\<close> lists
  every buffer handed to \<^verbatim>\<open>connection.Write\<close> with the transport it went to, \<open>signalled\<close>
  counts the sends on the channel \<^verbatim>\<open>disconnected\<close>, and \<open>dispatched\<close> lists the
  \<open>(type, payload)\<close> pairs that the read loop cut out of the receive buffer.
\<close>

record OpenTTDServer =
  connection :: "nat option"
  ServerName :: string
  ServerVersion :: string
  ServerDedicated :: bool
  MapName :: string
  MapSeed :: "32 word"
  MapLandscape :: byte
  MapX :: "16 word"
  MapY :: "16 word"
  rconDaily :: "string list"
  rconMonthly :: "string list"
  rconYearly :: "string list"
  written :: "(nat \<times> byte list) list"
  signalled :: nat
  dispatched :: "(nat \<times> byte list) list"

definition newServer :: OpenTTDServer where
  \<comment> \<open>the zero value \<^verbatim>\<open>admin.OpenTTDServer{}\<close> that \<^verbatim>\<open>main\<close> starts from\<close>
  "newServer = \<lparr> connection = None, ServerName = [], ServerVersion = [],
     ServerDedicated = False, MapName = [], MapSeed = 0, MapLandscape = 0, MapX = 0, MapY = 0,
     rconDaily = [], rconMonthly = [], rconYearly = [],
     written = [], signalled = 0, dispatched = [] \<rparr>"

subsection \<open>Constants\<close>

definition adminPacketAdminJOIN :: nat where "adminPacketAdminJOIN = 0"
definition adminPacketAdminUPDATE_FREQUENCY :: nat where "adminPacketAdminUPDATE_FREQUENCY = 2"
definition adminPacketAdminRCON :: nat where "adminPacketAdminRCON = 5"

definition adminPacketServerPROTOCOL :: nat where "adminPacketServerPROTOCOL = 103"
definition adminPacketServerWELCOME :: nat where "adminPacketServerWELCOME = 104"
definition adminPacketServerSHUTDOWN :: nat where "adminPacketServerSHUTDOWN = 106"
definition adminPacketServerDATE :: nat where "adminPacketServerDATE = 107"
definition adminPacketServerCHAT :: nat where "adminPacketServerCHAT = 119"
definition adminPacketServerRCON :: nat where "adminPacketServerRCON = 120"
definition adminPacketServerRCON_END :: nat where "adminPacketServerRCON_END = 125"

definition adminUpdateDATE :: "16 word" where "adminUpdateDATE = 0"
definition adminFrequencyDAILY :: "16 word" where "adminFrequencyDAILY = 0x02"
definition adminFrequencyMONTHLY :: "16 word" where "adminFrequencyMONTHLY = 0x08"

section \<open>Little-endian integers (encoding/binary)\<close>

definition PutUint16 :: "16 word \<Rightarrow> byte list" where
  \<comment> \<open>\<^verbatim>\<open>b[0] = byte(v); b[1] = byte(v >> 8)\<close>\<close>
  "PutUint16 v = [ucast v, ucast (drop_bit 8 v)]"

definition Uint16 :: "byte list \<Rightarrow> 16 word" where
  \<comment> \<open>\<^verbatim>\<open>uint16(b[0]) | uint16(b[1])<<8\<close>, on a slice of two bytes\<close>
  "Uint16 b = ucast (b ! 0) OR push_bit 8 (ucast (b ! 1))"

definition Uint32 :: "byte list \<Rightarrow> 32 word" where
  \<comment> \<open>on a slice of four bytes\<close>
  "Uint32 b = ucast (b ! 0) OR push_bit 8 (ucast (b ! 1))
     OR push_bit 16 (ucast (b ! 2)) OR push_bit 24 (ucast (b ! 3))"

definition slice :: "byte list \<Rightarrow> int \<Rightarrow> int \<Rightarrow> panic + byte list" where
  \<comment> \<open>the slice expression \<^verbatim>\<open>b[lo:hi]\<close>\<close>
  "slice b lo hi =
     (if lo < 0 \<or> hi < lo then Inl SliceBoundsOutOfRange
      else if int (length b) < hi then Inl BeyondLength
      else Inr (take (nat (hi - lo)) (drop (nat lo) b)))"

definition index :: "byte list \<Rightarrow> int \<Rightarrow> panic + byte" where
  \<comment> \<open>the index expression \<^verbatim>\<open>b[i]\<close>\<close>
  "index b i = (if 0 \<le> i \<and> i < int (length b) then Inr (b ! nat i) else Inl IndexOutOfRange)"

section \<open>Outgoing messages\<close>

definition sendSocket_bytes :: "nat \<Rightarrow> byte list \<Rightarrow> byte list" where
  \<comment> \<open>the buffer \<^verbatim>\<open>toSend\<close> that \<^verbatim>\<open>sendSocket\<close> builds\<close>
  "sendSocket_bytes protocol data =
     (let size = (of_nat (length data + 3) :: 16 word)
      in PutUint16 size @ [of_nat protocol] @ data)"

definition sendSocket :: "OpenTTDServer \<Rightarrow> nat \<Rightarrow> byte list \<Rightarrow> panic + OpenTTDServer" where
  "sendSocket server protocol data =
     (case connection server of
        None \<Rightarrow> Inl NilDereference
      | Some c \<Rightarrow> Inr (server\<lparr>written := written server @ [(c, sendSocket_bytes protocol data)]\<rparr>))"

definition rconCommand :: "OpenTTDServer \<Rightarrow> string \<Rightarrow> panic + OpenTTDServer" where
  "rconCommand server command =
     sendSocket server adminPacketAdminRCON (bytes_of_string command @ [0])"

definition joinPacket :: "string \<Rightarrow> string \<Rightarrow> string \<Rightarrow> byte list" where
  \<comment> \<open>the login buffer of \<^verbatim>\<open>Connect\<close>: \<^verbatim>\<open>size := len(toSend) + 2\<close>, then the prefix
      \<^verbatim>\<open>[]byte{byte(size), 0x0}\<close>\<close>
  "joinPacket password botName botVersion =
     (let toSend = [of_nat adminPacketAdminJOIN] @ bytes_of_string password @ [0]
                     @ bytes_of_string botName @ [0] @ bytes_of_string botVersion @ [0];
          size = length toSend + 2
      in [of_nat size, 0] @ toSend)"

definition registerDaily :: "OpenTTDServer \<Rightarrow> panic + OpenTTDServer" where
  \<comment> \<open>"register for daily updates" in \<^verbatim>\<open>Connect\<close>\<close>
  "registerDaily server =
     (let updateDateCmd = PutUint16 adminUpdateDATE;
          updateDateDaily = PutUint16 adminFrequencyDAILY
      in sendSocket server adminPacketAdminUPDATE_FREQUENCY (updateDateCmd @ updateDateDaily))"

definition registerMonthly_bytes :: "byte list" where
  \<comment> \<open>the registration that an older copy of the package sends, in which \<^verbatim>\<open>Connect\<close> is a
      plain function: the same buffer built from \<^verbatim>\<open>adminFrequencyMONTHLY\<close>. The program
      \<^verbatim>\<open>openttd_multitool\<close> does not call that copy.\<close>
  "registerMonthly_bytes =
     (let updateDateCmd = PutUint16 adminUpdateDATE;
          updateDateDaily = PutUint16 adminFrequencyMONTHLY
      in sendSocket_bytes adminPacketAdminUPDATE_FREQUENCY (updateDateCmd @ updateDateDaily))"

definition establish ::
  "OpenTTDServer \<Rightarrow> nat \<Rightarrow> string \<Rightarrow> string \<Rightarrow> string \<Rightarrow> panic + OpenTTDServer" where
  \<comment> \<open>one pass of the loop of \<^verbatim>\<open>Connect\<close> after a successful dial, up to the wait for
      the disconnection signal: the transport \<open>conn\<close> is stored, the login is written and
      the date updates are registered\<close>
  "establish server conn password botName botVersion =
     (let server = server\<lparr>connection := Some conn\<rparr>;
          server = server\<lparr>written := written server @ [(conn, joinPacket password botName botVersion)]\<rparr>
      in registerDaily server)"

section \<open>Registration\<close>

definition RegisterDateChange :: "OpenTTDServer \<Rightarrow> string \<Rightarrow> string \<Rightarrow> panic + OpenTTDServer" where
  "RegisterDateChange server period command =
     (if period = ''daily'' then Inr (server\<lparr>rconDaily := rconDaily server @ [command]\<rparr>)
      else if period = ''monthly'' then Inr (server\<lparr>rconMonthly := rconMonthly server @ [command]\<rparr>)
      else if period = ''yearly'' then Inr (server\<lparr>rconYearly := rconYearly server @ [command]\<rparr>)
      else Inl (PanicMsg (''bad period '' @ period)))"

section \<open>Template substitution\<close>

text \<open>
  \<^verbatim>\<open>fmt.Sprintf\<close> with the verb \<^verbatim>\<open>%0wd\<close>: the decimal digits, filled with zeros on the left
  up to the width \<open>w\<close>; a negative number shows its sign first, and the sign counts in
  the width.
\<close>

definition digit :: "nat \<Rightarrow> char" where
  \<comment> \<open>the character of a decimal digit \<open>d < 10\<close>\<close>
  "digit d = ''0123456789'' ! d"

function decimal :: "nat \<Rightarrow> string" where
  "decimal n = (if n < 10 then [digit n] else decimal (n div 10) @ [digit (n mod 10)])"
  by pat_completeness auto
termination
  by (relation "measure id") auto

definition zero_padded :: "nat \<Rightarrow> nat \<Rightarrow> string" where
  "zero_padded w n = replicate (w - length (decimal n)) CHR ''0'' @ decimal n"

definition Sprintf_0d :: "nat \<Rightarrow> int \<Rightarrow> string" where
  "Sprintf_0d w n =
     (if n < 0 then CHR ''-'' # zero_padded (w - 1) (nat (- n)) else zero_padded w (nat n))"

text \<open>
  \<^verbatim>\<open>strings.Replace(s, old, new, -1)\<close>: every occurrence of \<open>old\<close> found by scanning from
  the left, without overlap, becomes \<open>new\<close>. The package calls it with patterns of two
  characters only; for the empty pattern, which Go treats specially, the model returns the
  string as it is.
\<close>

function strings_Replace :: "string \<Rightarrow> string \<Rightarrow> string \<Rightarrow> string" where
  "strings_Replace [] old new = []"
| "strings_Replace (c # cs) old new =
     (if old \<noteq> [] \<and> take (length old) (c # cs) = old
      then new @ strings_Replace (drop (length old) (c # cs)) old new
      else c # strings_Replace cs old new)"
  by pat_completeness auto
termination
  by (relation "measure (\<lambda>(s, old, new). length s)") auto

definition processCommand :: "string \<Rightarrow> date \<Rightarrow> string" where
  "processCommand command dt =
     (let command = strings_Replace command ''%Y'' (Sprintf_0d 4 (Year dt));
          command = strings_Replace command ''%M'' (Sprintf_0d 2 (Month dt));
          command = strings_Replace command ''%D'' (Sprintf_0d 2 (Day dt))
      in command)"

text \<open>
  What the specification asks of the substitution, in one pass over the template: each
  token is replaced where it stands, every other character is kept.
\<close>

fun substitute_tokens :: "string \<Rightarrow> string \<Rightarrow> string \<Rightarrow> string \<Rightarrow> string" where
  "substitute_tokens y m d (c1 # c2 # cs) =
     (if c1 = CHR ''%'' \<and> c2 = CHR ''Y'' then y @ substitute_tokens y m d cs
      else if c1 = CHR ''%'' \<and> c2 = CHR ''M'' then m @ substitute_tokens y m d cs
      else if c1 = CHR ''%'' \<and> c2 = CHR ''D'' then d @ substitute_tokens y m d cs
      else c1 # substitute_tokens y m d (c2 # cs))"
| "substitute_tokens y m d cs = cs"

section \<open>The calendar scheduler\<close>

fun rconEach :: "OpenTTDServer \<Rightarrow> string list \<Rightarrow> date \<Rightarrow> panic + OpenTTDServer" where
  \<comment> \<open>\<^verbatim>\<open>for _, rconCommand := range list { server.rconCommand(processCommand(rconCommand, dt)) }\<close>\<close>
  "rconEach server [] dt = Inr server"
| "rconEach server (c # cs) dt =
     (case rconCommand server (processCommand c dt) of
        Inl e \<Rightarrow> Inl e
      | Inr server' \<Rightarrow> rconEach server' cs dt)"

definition dateChanged :: "OpenTTDServer \<Rightarrow> date \<Rightarrow> panic + OpenTTDServer" where
  "dateChanged server dt =
     (case rconEach server (rconDaily server) dt of
        Inl e \<Rightarrow> Inl e
      | Inr server \<Rightarrow>
     (case (if Day dt = 1 then rconEach server (rconMonthly server) dt else Inr server) of
        Inl e \<Rightarrow> Inl e
      | Inr server \<Rightarrow>
     (if Day dt = 1 \<and> Month dt = 1 then rconEach server (rconYearly server) dt
      else Inr server)))"

text \<open>
  \<^verbatim>\<open>time.Date(0, time.January, 1, 0, 0, 0, 0, time.UTC).AddDate(0, 0, n)\<close>: the date \<open>n\<close>
  days after 1 January of year 0 in the proleptic Gregorian calendar of Go's package
  \<^verbatim>\<open>time\<close>. The count is taken from 1 March of year 0 (60 days later, year 0 being a leap
  year), so that the leap day is the last day of the counted year.
\<close>

definition epochAddDays :: "int \<Rightarrow> date" where
  "epochAddDays n =
     (let z = n - 60;
          era = z div 146097;
          doe = z - era * 146097;
          yoe = (doe - doe div 1460 + doe div 36524 - doe div 146096) div 365;
          doy = doe - (365 * yoe + yoe div 4 - yoe div 100);
          mp = (5 * doy + 2) div 153;
          d = doy - (153 * mp + 2) div 5 + 1;
          m = (if mp < 10 then mp + 3 else mp - 9)
      in \<lparr> Year = yoe + era * 400 + (if m \<le> 2 then 1 else 0), Month = m, Day = d \<rparr>)"

section \<open>Decoding\<close>

function extractString_from :: "byte list \<Rightarrow> int \<Rightarrow> byte list \<Rightarrow> panic + (string \<times> int)" where
  \<comment> \<open>the loop \<^verbatim>\<open>for i := start; i <= len(bytes); i++\<close> with its variable \<^verbatim>\<open>buildString\<close>\<close>
  "extractString_from bytes i buildString =
     (if i \<le> int (length bytes) then
        (case index bytes i of
           Inl e \<Rightarrow> Inl e
         | Inr b \<Rightarrow>
             if b = 0 then Inr (string_of_bytes buildString, i + 1)
             else extractString_from bytes (i + 1) (buildString @ [b]))
      else Inr ([], - 1))"
  by pat_completeness auto
termination
  by (relation "measure (\<lambda>(bytes, i, b). nat (int (length bytes) + 1 - i))") auto

definition extractString :: "byte list \<Rightarrow> int \<Rightarrow> panic + (string \<times> int)" where
  "extractString bytes start = extractString_from bytes start []"

text \<open>
  The branches of the read loop, one per packet type. \<open>Proceed\<close> goes on to the
  statement after the branch, \<open>ShutDown\<close> is the \<^verbatim>\<open>return\<close> of the shutdown branch.
\<close>

datatype handled = Proceed OpenTTDServer | ShutDown OpenTTDServer | Panics panic

definition decodeWelcome :: "OpenTTDServer \<Rightarrow> byte list \<Rightarrow> panic + OpenTTDServer" where
  "decodeWelcome server packetData =
     (case extractString packetData 0 of Inl e \<Rightarrow> Inl e | Inr (name, next) \<Rightarrow>
      (let server = server\<lparr>ServerName := name\<rparr> in
      (case extractString packetData next of Inl e \<Rightarrow> Inl e | Inr (version, next) \<Rightarrow>
      (let server = server\<lparr>ServerVersion := version\<rparr> in
      (case index packetData next of Inl e \<Rightarrow> Inl e | Inr flag \<Rightarrow>
      (let server = (if flag = 0 then server\<lparr>ServerDedicated := False\<rparr>
                     else if flag = 1 then server\<lparr>ServerDedicated := True\<rparr>
                     else server) in
      (case extractString packetData (next + 1) of Inl e \<Rightarrow> Inl e | Inr (mapName, next) \<Rightarrow>
      (let server = server\<lparr>MapName := mapName\<rparr> in
      (case slice packetData next (next + 4) of Inl e \<Rightarrow> Inl e | Inr seed \<Rightarrow>
      (let server = server\<lparr>MapSeed := Uint32 seed\<rparr> in
      (case index packetData (next + 4) of Inl e \<Rightarrow> Inl e | Inr landscape \<Rightarrow>
      (let server = server\<lparr>MapLandscape := landscape\<rparr> in
      (case slice packetData (next + 9) (next + 11) of Inl e \<Rightarrow> Inl e | Inr x \<Rightarrow>
      (let server = server\<lparr>MapX := Uint16 x\<rparr> in
      (case slice packetData (next + 11) (next + 13) of Inl e \<Rightarrow> Inl e | Inr y \<Rightarrow>
         Inr (server\<lparr>MapY := Uint16 y\<rparr>))))))))))))))))"

definition decodeChat :: "byte list \<Rightarrow> panic + unit" where
  \<comment> \<open>the chat branch decodes and logs; only its panics are visible\<close>
  "decodeChat packetData =
     (case index packetData 0 of Inl e \<Rightarrow> Inl e | Inr chatAction \<Rightarrow>
     (case index packetData 1 of Inl e \<Rightarrow> Inl e | Inr chatDestType \<Rightarrow>
     (case slice packetData 2 6 of Inl e \<Rightarrow> Inl e | Inr chatClientID \<Rightarrow>
     (case extractString packetData 6 of Inl e \<Rightarrow> Inl e | Inr chatMsg \<Rightarrow>
     (case slice packetData (int (length packetData) - 8) (int (length packetData)) of
        Inl e \<Rightarrow> Inl e | Inr chatData \<Rightarrow> Inr ())))))"

definition handlePacket :: "OpenTTDServer \<Rightarrow> nat \<Rightarrow> byte list \<Rightarrow> handled" where
  "handlePacket server packetType packetData =
     (if packetType = adminPacketServerPROTOCOL then Proceed server
      else if packetType = adminPacketServerWELCOME then
        (case decodeWelcome server packetData of Inl e \<Rightarrow> Panics e | Inr server' \<Rightarrow> Proceed server')
      else if packetType = adminPacketServerSHUTDOWN then
        ShutDown (server\<lparr>connection := None, signalled := signalled server + 1\<rparr>)
      else if packetType = adminPacketServerDATE then
        (case slice packetData 0 4 of Inl e \<Rightarrow> Panics e | Inr d \<Rightarrow>
        (let date = Uint32 d; dt = epochAddDays (int (unat date)) in
        (case dateChanged server dt of Inl e \<Rightarrow> Panics e | Inr server' \<Rightarrow> Proceed server')))
      else if packetType = adminPacketServerCHAT then
        (case decodeChat packetData of Inl e \<Rightarrow> Panics e | Inr u \<Rightarrow> Proceed server)
      else if packetType = adminPacketServerRCON then
        (case slice packetData 0 2 of Inl e \<Rightarrow> Panics e | Inr colour \<Rightarrow>
        (case extractString packetData 2 of Inl e \<Rightarrow> Panics e | Inr rconRecvString \<Rightarrow>
           Proceed server))
      else if packetType = adminPacketServerRCON_END then
        (case extractString packetData 0 of Inl e \<Rightarrow> Panics e | Inr rconEndRecvString \<Rightarrow>
           Proceed server)
      else Proceed server)"

section \<open>The read loop\<close>

text \<open>
  What \<^verbatim>\<open>conn.Read\<close> returns: some bytes (at most the 1024 of \<^verbatim>\<open>socketData\<close>), or an error.
  An error that is a \<^verbatim>\<open>*net.OpError\<close> carries the text of its inner error.
\<close>

datatype read_error = OpError string | OtherError string

datatype read_result = Data "byte list" | ReadError read_error

text \<open>
  How the reader ends: it signalled the disconnection and returned, it returned without a
  signal, the process panicked, or (the reads of the model being used up) it waits in
  \<^verbatim>\<open>Read\<close> with the bytes it has kept.
\<close>

datatype reader_end =
    Disconnected OpenTTDServer
  | Returned OpenTTDServer
  | Crashed panic OpenTTDServer
  | Blocked OpenTTDServer "byte list"

datatype reading = NeedMore OpenTTDServer "byte list" | Stopped reader_end

function processChunk :: "OpenTTDServer \<Rightarrow> byte list \<Rightarrow> reading" where
  \<comment> \<open>the inner \<^verbatim>\<open>for\<close> of \<^verbatim>\<open>listenSocket\<close>; \<open>NeedMore\<close> is \<^verbatim>\<open>continue SocketLoop\<close>\<close>
  "processChunk server chunk =
     (if length chunk < 2 then NeedMore server chunk
      else
        let packetSize = Uint16 (take 2 chunk) in
        if packetSize > of_nat (length chunk) then NeedMore server chunk
        else
          (case index chunk 2 of Inl e \<Rightarrow> Stopped (Crashed e server) | Inr t \<Rightarrow>
          (case slice chunk 3 (int (unat packetSize)) of Inl e \<Rightarrow> Stopped (Crashed e server)
           | Inr packetData \<Rightarrow>
             let packetType = unat t;
                 server = server\<lparr>dispatched := dispatched server @ [(packetType, packetData)]\<rparr>
             in (case handlePacket server packetType packetData of
                   Panics e \<Rightarrow> Stopped (Crashed e server)
                 | ShutDown server' \<Rightarrow> Stopped (Disconnected server')
                 | Proceed server' \<Rightarrow> processChunk server' (drop (unat packetSize) chunk)))))"
  by pat_completeness auto
termination
proof (relation "measure (\<lambda>(server, chunk). length chunk)")
  show "wf (measure (\<lambda>(server, chunk). length chunk))"
    by simp
next
  fix server :: OpenTTDServer and chunk :: "byte list" and packetSize :: "16 word"
    and packetData and s' :: OpenTTDServer
  assume len: "\<not> length chunk < 2"
    and sl: "slice chunk 3 (int (unat packetSize)) = Inr packetData"
  from sl have "\<not> int (unat packetSize) < 3"
    by (simp add: slice_def split: if_splits)
  then have "0 < unat packetSize"
    by linarith
  with len show "((s', drop (unat packetSize) chunk), (server, chunk))
          \<in> measure (\<lambda>(server, chunk). length chunk)"
    by simp
qed

fun listenSocket_loop :: "OpenTTDServer \<Rightarrow> byte list \<Rightarrow> read_result list \<Rightarrow> reader_end" where
  \<comment> \<open>the loop \<^verbatim>\<open>SocketLoop\<close>, one pass per result of \<^verbatim>\<open>Read\<close>\<close>
  "listenSocket_loop server chunk [] = Blocked server chunk"
| "listenSocket_loop server chunk (ReadError err # reads) =
     (case err of
        OpError msg \<Rightarrow>
          if msg = ''read: connection reset by peer''
          then Disconnected (server\<lparr>connection := None, signalled := signalled server + 1\<rparr>)
          else Returned server
      | OtherError msg \<Rightarrow>
          Disconnected (server\<lparr>connection := None, signalled := signalled server + 1\<rparr>))"
| "listenSocket_loop server chunk (Data socketData # reads) =
     (case processChunk server (chunk @ socketData) of
        NeedMore server' chunk' \<Rightarrow> listenSocket_loop server' chunk' reads
      | Stopped r \<Rightarrow> r)"

definition listenSocket :: "OpenTTDServer \<Rightarrow> read_result list \<Rightarrow> reader_end" where
  \<comment> \<open>\<^verbatim>\<open>var chunk []byte\<close>: every reader starts with an empty buffer\<close>
  "listenSocket server reads = listenSocket_loop server [] reads"

section \<open>The connection loop\<close>

text \<open>
  What \<^verbatim>\<open>net.Dial\<close> returns: an error, or a transport, given by the results of the reads
  on it. The loop of \<^verbatim>\<open>Connect\<close> never ends by itself; the model follows it through a given
  list of dials. The login and the registration are written by the calling activity while
  the reader already runs; the model writes them first.
\<close>

datatype dial = DialError | DialOk "read_result list"

datatype run =
    Redialling OpenTTDServer
  | Hung OpenTTDServer
  | Dead panic OpenTTDServer
  | Idle OpenTTDServer "byte list"

fun Connect_loop ::
  "OpenTTDServer \<Rightarrow> nat \<Rightarrow> dial list \<Rightarrow> string \<Rightarrow> string \<Rightarrow> string \<Rightarrow> run" where
  "Connect_loop server n [] password botName botVersion = Redialling server"
| "Connect_loop server n (DialError # dials) password botName botVersion =
     Connect_loop server (Suc n) dials password botName botVersion"
| "Connect_loop server n (DialOk reads # dials) password botName botVersion =
     (case establish server n password botName botVersion of
        Inl e \<Rightarrow> Dead e server
      | Inr server \<Rightarrow>
          (case listenSocket server reads of
             Disconnected server \<Rightarrow> Connect_loop server (Suc n) dials password botName botVersion
           | Returned server \<Rightarrow> Hung server
           | Crashed e server \<Rightarrow> Dead e server
           | Blocked server chunk \<Rightarrow> Idle server chunk))"

definition Connect :: "OpenTTDServer \<Rightarrow> dial list \<Rightarrow> string \<Rightarrow> string \<Rightarrow> string \<Rightarrow> run" where
  "Connect server dials password botName botVersion =
     Connect_loop server 0 dials password botName botVersion"

section \<open>Notions of the specification\<close>

text \<open>
  The cached server-reported connection state of the specification: server name, server
  version, dedicated flag, map name, map seed, map landscape, map width and map height.
\<close>

definition cached_state ::
  "OpenTTDServer \<Rightarrow> string \<times> string \<times> bool \<times> string \<times> 32 word \<times> byte \<times> 16 word \<times> 16 word" where
  "cached_state server = (ServerName server, ServerVersion server, ServerDedicated server,
     MapName server, MapSeed server, MapLandscape server, MapX server, MapY server)"

text \<open>A receive buffer fed by reads that all return data, and the bytes they carry.\<close>

definition bytes_read :: "byte list list \<Rightarrow> byte list" where
  "bytes_read chunks = concat chunks"

text \<open>
  A string that starts no token and ends none: it is not empty and holds only decimal
  digits and the minus sign.
\<close>

definition plain :: "string \<Rightarrow> bool" where
  "plain x \<longleftrightarrow> x \<noteq> [] \<and> set x \<subseteq> set ''-0123456789''"

text \<open>
  A valid packet stream: the bytes are packets one after the other, each with a declared
  total length of at least 3 that counts its two length bytes, its type byte and its
  payload (so the stream ends where a packet ends).
\<close>

function valid_stream :: "byte list \<Rightarrow> bool" where
  "valid_stream stream =
     (if stream = [] then True
      else if length stream < 2 then False
      else
        let total_length = unat (Uint16 (take 2 stream))
        in if total_length < 3 \<or> length stream < total_length then False
           else valid_stream (drop total_length stream))"
  by pat_completeness auto
termination
  by (relation "measure length") auto

text \<open>The server state that a reader leaves behind.\<close>

primrec end_server :: "reader_end \<Rightarrow> OpenTTDServer" where
  "end_server (Disconnected server) = server"
| "end_server (Returned server) = server"
| "end_server (Crashed e server) = server"
| "end_server (Blocked server chunk) = server"

text \<open>
  Two ways in which reads of at most 1024 bytes can deliver one and the same stream: a
  packet of type 103 with the declared length 65535, followed by a packet of type 103 with
  no payload. In the first the long packet ends where a read ends; in the second the read
  that brings its last bytes also brings the first byte of the next packet.
\<close>

definition first_reads :: "byte list list" where
  "first_reads = ([255, 255, 103] @ replicate 1021 0) # replicate 62 (replicate 1024 0)"

definition aligned_split :: "byte list list" where
  "aligned_split = first_reads @ [replicate 1023 0, [3, 0, 103]]"

definition shifted_split :: "byte list list" where
  "shifted_split = first_reads @ [replicate 1023 0 @ [3], [0, 103]]"

declare extractString_from.simps [simp del]
declare valid_stream.simps [simp del]
declare processChunk.simps [simp del]
declare decimal.simps [simp del]

section \<open>Registration of commands\<close>

text \<open>
  Claim C9. A period name other than "daily", "monthly" and "yearly" makes
  \<^verbatim>\<open>RegisterDateChange\<close> panic with the message "bad period " followed by the name, which
  ends the process; each of the three valid names appends the command at the end of the
  list of that period and changes nothing else.
\<close>

theorem RegisterDateChange_periods:
  "(period \<notin> {''daily'', ''monthly'', ''yearly''} \<longrightarrow>
      RegisterDateChange server period command = Inl (PanicMsg (''bad period '' @ period)))
   \<and> (period = ''daily'' \<longrightarrow>
      RegisterDateChange server period command =
        Inr (server\<lparr>rconDaily := rconDaily server @ [command]\<rparr>))
   \<and> (period = ''monthly'' \<longrightarrow>
      RegisterDateChange server period command =
        Inr (server\<lparr>rconMonthly := rconMonthly server @ [command]\<rparr>))
   \<and> (period = ''yearly'' \<longrightarrow>
      RegisterDateChange server period command =
        Inr (server\<lparr>rconYearly := rconYearly server @ [command]\<rparr>))"
  by (simp add: RegisterDateChange_def)

theorem RegisterDateChange_periods_witness:
  "RegisterDateChange newServer ''weekly'' ''save'' = Inl (PanicMsg ''bad period weekly'')
   \<and> RegisterDateChange newServer ''daily'' ''save'' =
        Inr (newServer\<lparr>rconDaily := [''save'']\<rparr>)
   \<and> RegisterDateChange newServer ''monthly'' ''save'' =
        Inr (newServer\<lparr>rconMonthly := [''save'']\<rparr>)
   \<and> RegisterDateChange newServer ''yearly'' ''save'' =
        Inr (newServer\<lparr>rconYearly := [''save'']\<rparr>)"
  using RegisterDateChange_periods [of "''weekly''" newServer "''save''"]
    RegisterDateChange_periods [of "''daily''" newServer "''save''"]
    RegisterDateChange_periods [of "''monthly''" newServer "''save''"]
    RegisterDateChange_periods [of "''yearly''" newServer "''save''"]
  by (simp add: newServer_def)

section \<open>Outgoing messages: the length prefix\<close>

lemma Uint16_PutUint16: "Uint16 (PutUint16 v) = v"
  unfolding Uint16_def PutUint16_def
  by (rule bit_word_eqI) (auto simp: bit_simps)

lemma unat_of_nat_length: "n < 65536 \<Longrightarrow> unat (of_nat n :: 16 word) = n"
  by (simp add: unat_of_nat)

text \<open>
  \<^verbatim>\<open>sendSocket\<close> writes the two bytes of the length, the type byte and the payload, and
  the length it declares is the payload length plus 3 as long as that fits 16 bits.
\<close>

lemma sendSocket_bytes_shape:
  "sendSocket_bytes protocol data =
     PutUint16 (of_nat (length data + 3)) @ [of_nat protocol] @ data"
  by (simp add: sendSocket_bytes_def)

lemma sendSocket_bytes_length_field:
  assumes "length data + 3 < 65536"
  shows "unat (Uint16 (take 2 (sendSocket_bytes protocol data))) = length data + 3"
proof -
  have "take 2 (sendSocket_bytes protocol data) = PutUint16 (of_nat (length data + 3))"
    by (simp add: sendSocket_bytes_def PutUint16_def Let_def)
  then have "Uint16 (take 2 (sendSocket_bytes protocol data)) = of_nat (length data + 3)"
    by (simp add: Uint16_PutUint16)
  moreover have "unat (of_nat (length data + 3) :: 16 word) = length data + 3"
    using assms by (rule unat_of_nat_length)
  ultimately show ?thesis by simp
qed

lemma length_joinPacket:
  "length (joinPacket password botName botVersion) =
     length password + length botName + length botVersion + 6"
  by (simp add: joinPacket_def bytes_of_string_def Let_def)

lemma joinPacket_prefix:
  "take 2 (joinPacket password botName botVersion) =
     [of_nat (length password + length botName + length botVersion + 6), 0]"
  by (simp add: joinPacket_def bytes_of_string_def Let_def)

text \<open>
  Claim C7. The login message does not follow the rule of the other messages: its prefix
  is the single byte \<^verbatim>\<open>byte(size)\<close> followed by a zero byte. With the bot name and version
  that \<^verbatim>\<open>openttd_multitool\<close> passes and a password of 229 characters the message is 256
  bytes long (a payload of 253 bytes plus 3) and its prefix declares the length 0.
\<close>

theorem joinPacket_long_password:
  "length (joinPacket (replicate 229 CHR ''a'') ''openttd-multitool'' ''0.02'') = 256
   \<and> take 2 (joinPacket (replicate 229 CHR ''a'') ''openttd-multitool'' ''0.02'') = [0, 0]
   \<and> unat (Uint16 (take 2 (joinPacket (replicate 229 CHR ''a'') ''openttd-multitool'' ''0.02''))) = 0"
  by (simp add: joinPacket_def bytes_of_string_def Let_def Uint16_def)

section \<open>The handshake\<close>

lemma establish_eq:
  "establish server conn password botName botVersion =
     Inr (server\<lparr>connection := Some conn,
                 written := written server @
                   [(conn, joinPacket password botName botVersion),
                    (conn, [7, 0, 2] @ [0, 0] @ [2, 0])]\<rparr>)"
  by (simp add: establish_def registerDaily_def sendSocket_def sendSocket_bytes_def
      PutUint16_def adminUpdateDATE_def adminFrequencyDAILY_def
      adminPacketAdminUPDATE_FREQUENCY_def Let_def)

text \<open>
  Claim C8. On a new connection the login message is written first and the registration
  comes right after it, on the same transport: a message of length 7 and type 2 (Set Update
  Frequency) whose payload is the category 0 and the frequency 0x02, two bytes each, low
  byte first. Nothing else is written and only the field \<open>connection\<close> changes.
\<close>

theorem establish_registers_daily:
  "establish server conn password botName botVersion =
     Inr (server\<lparr>connection := Some conn,
                 written := written server @
                   [(conn, joinPacket password botName botVersion),
                    (conn, [7, 0, 2] @ PutUint16 0 @ PutUint16 0x02)]\<rparr>)"
  by (simp add: establish_eq PutUint16_def)

text \<open>The older copy registers the monthly frequency 0x08 instead.\<close>

lemma registerMonthly_bytes_eq: "registerMonthly_bytes = [7, 0, 2] @ PutUint16 0 @ PutUint16 0x08"
  by (simp add: registerMonthly_bytes_def sendSocket_bytes_def PutUint16_def
      adminUpdateDATE_def adminFrequencyMONTHLY_def adminPacketAdminUPDATE_FREQUENCY_def Let_def)

section \<open>The string decoder\<close>

lemma extractString_from_found:
  "\<lbrakk>i \<le> k; k < length bytes; bytes ! k = 0; \<forall>j. i \<le> j \<and> j < k \<longrightarrow> bytes ! j \<noteq> 0\<rbrakk>
   \<Longrightarrow> extractString_from bytes (int i) acc =
         Inr (string_of_bytes (acc @ take (k - i) (drop i bytes)), int k + 1)"
proof (induction "k - i" arbitrary: i acc)
  case 0
  then have "i = k" by simp
  with 0 show ?case
    by (subst extractString_from.simps) (simp add: index_def)
next
  case (Suc d)
  then have lt: "i < k" and nz: "bytes ! i \<noteq> 0" by auto
  from lt Suc.prems have il: "i < length bytes" by simp
  have step: "extractString_from bytes (int i) acc =
      extractString_from bytes (int (Suc i)) (acc @ [bytes ! i])"
    using il nz by (subst extractString_from.simps) (simp add: index_def add.commute)
  have "extractString_from bytes (int (Suc i)) (acc @ [bytes ! i]) =
      Inr (string_of_bytes ((acc @ [bytes ! i]) @ take (k - Suc i) (drop (Suc i) bytes)), int k + 1)"
    using Suc.hyps(2) Suc.prems lt by (intro Suc.hyps(1)) auto
  moreover have "take (k - i) (drop i bytes) = bytes ! i # take (k - Suc i) (drop (Suc i) bytes)"
  proof -
    have "drop i bytes = bytes ! i # drop (Suc i) bytes"
      using il by (simp add: Cons_nth_drop_Suc)
    moreover have "k - i = Suc (k - Suc i)" using lt by simp
    ultimately show ?thesis by simp
  qed
  ultimately show ?case using step by simp
qed

lemma extractString_from_unterminated:
  "\<lbrakk>i \<le> length bytes; \<forall>j. i \<le> j \<and> j < length bytes \<longrightarrow> bytes ! j \<noteq> 0\<rbrakk>
   \<Longrightarrow> extractString_from bytes (int i) acc = Inl IndexOutOfRange"
proof (induction "length bytes - i" arbitrary: i acc)
  case 0
  then have "i = length bytes" by simp
  then show ?case
    by (subst extractString_from.simps) (simp add: index_def)
next
  case (Suc d)
  then have il: "i < length bytes" and nz: "bytes ! i \<noteq> 0" by auto
  have "extractString_from bytes (int i) acc =
      extractString_from bytes (int (Suc i)) (acc @ [bytes ! i])"
    using il nz by (subst extractString_from.simps) (simp add: index_def add.commute)
  also have "\<dots> = Inl IndexOutOfRange"
    using Suc.hyps(2) Suc.prems il by (intro Suc.hyps(1)) auto
  finally show ?case .
qed

text \<open>
  With a zero byte at or after the start, the decoder returns the bytes before the first
  such zero and the offset behind it.
\<close>

lemma extractString_found:
  "\<lbrakk>start \<le> k; k < length bytes; bytes ! k = 0;
    \<forall>j. start \<le> j \<and> j < k \<longrightarrow> bytes ! j \<noteq> 0\<rbrakk>
   \<Longrightarrow> extractString bytes (int start) =
         Inr (string_of_bytes (take (k - start) (drop start bytes)), int k + 1)"
  using extractString_from_found [of start k bytes "[]"] by (simp add: extractString_def)

text \<open>
  Without one, the loop reaches \<^verbatim>\<open>i = len(bytes)\<close>, which its condition \<^verbatim>\<open>i <= len(bytes)\<close>
  admits, and the index expression panics; the \<^verbatim>\<open>return "", -1\<close> behind the loop is
  reached only from a start beyond the length.
\<close>

lemma extractString_no_terminator:
  "\<lbrakk>start \<le> length bytes; \<forall>j. start \<le> j \<and> j < length bytes \<longrightarrow> bytes ! j \<noteq> 0\<rbrakk>
   \<Longrightarrow> extractString bytes (int start) = Inl IndexOutOfRange"
  using extractString_from_unterminated [of start bytes "[]"] by (simp add: extractString_def)

text \<open>
  Claim C4. On the two bytes "AB", which hold no zero byte, the decoder started at offset 0
  does not report a failure: it indexes the slice at its length and panics.
\<close>

theorem extractString_unterminated:
  "extractString [0x41, 0x42] 0 = Inl IndexOutOfRange"
  by (simp add: extractString_def extractString_from.simps index_def)

section \<open>The scheduler\<close>

lemma rconEach_writes:
  "connection server = Some c \<Longrightarrow>
   rconEach server commands dt =
     Inr (server\<lparr>written := written server @
            map (\<lambda>command. (c, sendSocket_bytes adminPacketAdminRCON
                                  (bytes_of_string (processCommand command dt) @ [0])))
              commands\<rparr>)"
proof (induction commands arbitrary: server)
  case Nil
  then show ?case by simp
next
  case (Cons a commands)
  then show ?case
    by (simp add: rconCommand_def sendSocket_def)
qed

text \<open>
  Claim C2. On a live connection, a date-changed event writes one RCON packet per
  dispatched command and nothing else, in this order: the daily commands in the order of
  their registration, then the monthly ones if the day is 1, then the yearly ones if the
  day is 1 and the month is 1; each packet carries the command after substitution.
\<close>

theorem dateChanged_dispatch:
  assumes "connection server = Some c"
  shows "dateChanged server dt =
     Inr (server\<lparr>written := written server @
            map (\<lambda>command. (c, sendSocket_bytes adminPacketAdminRCON
                                  (bytes_of_string (processCommand command dt) @ [0])))
              (rconDaily server
               @ (if Day dt = 1 then rconMonthly server else [])
               @ (if Day dt = 1 \<and> Month dt = 1 then rconYearly server else []))\<rparr>)"
  using assms by (simp add: dateChanged_def rconEach_writes)

theorem dateChanged_dispatch_witness:
  "connection (newServer\<lparr>connection := Some 0, rconDaily := [''say hi''],
                 rconMonthly := [''save %Y-%M''], rconYearly := [''screenshot giant'']\<rparr>) = Some 0
   \<and> dateChanged (newServer\<lparr>connection := Some 0, rconDaily := [''say hi''],
                 rconMonthly := [''save %Y-%M''], rconYearly := [''screenshot giant'']\<rparr>)
        \<lparr>Year = 2021, Month = 2, Day = 1\<rparr>
     = Inr (newServer\<lparr>connection := Some 0, rconDaily := [''say hi''],
                 rconMonthly := [''save %Y-%M''], rconYearly := [''screenshot giant''],
                 written := map (\<lambda>command. (0, sendSocket_bytes adminPacketAdminRCON
                     (bytes_of_string (processCommand command \<lparr>Year = 2021, Month = 2, Day = 1\<rparr>) @ [0])))
                   [''say hi'', ''save %Y-%M'']\<rparr>)"
  using dateChanged_dispatch [of "newServer\<lparr>connection := Some 0, rconDaily := [''say hi''],
                 rconMonthly := [''save %Y-%M''], rconYearly := [''screenshot giant'']\<rparr>" 0
                 "\<lparr>Year = 2021, Month = 2, Day = 1\<rparr>"]
  by (simp add: newServer_def)

section \<open>The read loop: errors and undersized headers\<close>

lemma processChunk_short:
  "length chunk < 2 \<Longrightarrow> processChunk server chunk = NeedMore server chunk"
  by (subst processChunk.simps) simp

lemma processChunk_incomplete:
  "\<lbrakk>2 \<le> length chunk; of_nat (length chunk) < Uint16 (take 2 chunk)\<rbrakk>
   \<Longrightarrow> processChunk server chunk = NeedMore server chunk"
  by (subst processChunk.simps) (simp add: Let_def)

text \<open>
  A buffer of at least two bytes (and fewer than 65536) whose header declares a length
  below 3 is not waited on and not skipped: the loop goes on to \<^verbatim>\<open>chunk[2]\<close> and
  \<^verbatim>\<open>chunk[3:packetSize]\<close>, and one of the two panics.
\<close>

lemma processChunk_undersized:
  assumes "2 \<le> length chunk" and "length chunk < 65536" and "Uint16 (take 2 chunk) < 3"
  shows "processChunk server chunk =
           Stopped (Crashed (if length chunk = 2 then IndexOutOfRange
                             else SliceBoundsOutOfRange) server)"
proof -
  from assms(3) have small: "unat (Uint16 (take 2 chunk)) < 3"
    by (simp add: word_less_nat_alt)
  have "unat (of_nat (length chunk) :: 16 word) = length chunk"
    using assms(2) by (rule unat_of_nat_length)
  with small assms(1) have "\<not> of_nat (length chunk) < Uint16 (take 2 chunk)"
    by (simp add: word_less_nat_alt)
  moreover from assms(3) have "uint (Uint16 (take 2 chunk)) < 3"
    by (simp add: word_less_def)
  ultimately show ?thesis
    using assms(1) by (subst processChunk.simps) (auto simp: Let_def index_def slice_def)
qed

text \<open>
  Claim C5. A read that delivers the two bytes 00 00 (a header declaring the length 0),
  or the three bytes 01 00 68 (a header declaring the length 1), ends the reader with a
  run-time panic, which ends the process: the server state is as it was, no disconnection
  is signalled and nothing reconnects.
\<close>

theorem undersized_header_panics:
  "listenSocket server [Data [0, 0]] = Crashed IndexOutOfRange server
   \<and> listenSocket server [Data [1, 0, 104]] = Crashed SliceBoundsOutOfRange server"
  by (simp add: listenSocket_def processChunk.simps Uint16_def index_def slice_def)

text \<open>
  Claim C6. A read error that is a \<^verbatim>\<open>*net.OpError\<close> with an inner error other than
  "read: connection reset by peer" (here a time-out) makes the reader return with the
  server state untouched: the transport is not cleared and no disconnection is signalled.
  The connection loop then waits for the signal for ever and dials no more.
\<close>

theorem listenSocket_silent_return:
  "listenSocket server (ReadError (OpError ''read: connection timed out'') # reads)
     = Returned server
   \<and> Connect_loop server n
        (DialOk (ReadError (OpError ''read: connection timed out'') # reads) # dials)
        password botName botVersion
     = Hung (server\<lparr>connection := Some n,
                 written := written server @
                   [(n, joinPacket password botName botVersion),
                    (n, [7, 0, 2] @ [0, 0] @ [2, 0])]\<rparr>)"
  by (simp add: listenSocket_def establish_eq)

text \<open>The two other kinds of read error do signal the disconnection, once.\<close>

lemma listenSocket_signalled_errors:
  "listenSocket server (ReadError (OpError ''read: connection reset by peer'') # reads)
     = Disconnected (server\<lparr>connection := None, signalled := signalled server + 1\<rparr>)
   \<and> listenSocket server (ReadError (OtherError msg) # reads)
     = Disconnected (server\<lparr>connection := None, signalled := signalled server + 1\<rparr>)"
  by (simp add: listenSocket_def)

section \<open>Template substitution: every occurrence is replaced\<close>

text \<open>
  \<^verbatim>\<open>processCommand\<close> makes three passes of \<^verbatim>\<open>strings.Replace\<close>, one per token. The passes
  do not disturb each other: a token starts with the percent sign, which the inserted
  numbers do not contain, and a number never begins with the second character of a token.
  So the three passes together are the single pass \<open>substitute_tokens\<close>.
\<close>

lemma Replace_other:
  "c \<noteq> CHR ''%'' \<Longrightarrow>
   strings_Replace (c # cs) [CHR ''%'', t] new = c # strings_Replace cs [CHR ''%'', t] new"
  by simp

lemma Replace_token:
  "strings_Replace (CHR ''%'' # t # cs) [CHR ''%'', t] new = new @ strings_Replace cs [CHR ''%'', t] new"
  by simp

lemma Replace_percent:
  "u \<noteq> t \<Longrightarrow>
   strings_Replace (CHR ''%'' # u # cs) [CHR ''%'', t] new
     = CHR ''%'' # strings_Replace (u # cs) [CHR ''%'', t] new"
  by simp

lemma Replace_append:
  "CHR ''%'' \<notin> set x \<Longrightarrow>
   strings_Replace (x @ s) [CHR ''%'', t] new = x @ strings_Replace s [CHR ''%'', t] new"
  by (induction x) auto

lemma Replace_hd:
  "\<lbrakk>s \<noteq> []; new \<noteq> []\<rbrakk> \<Longrightarrow>
   strings_Replace s old new \<noteq> []
   \<and> (hd (strings_Replace s old new) = hd s \<or> hd (strings_Replace s old new) = hd new)"
  by (cases s) auto

lemma plain_facts:
  assumes "plain x"
  shows "x \<noteq> []" and "CHR ''%'' \<notin> set x"
    and "hd x \<noteq> CHR ''Y''" and "hd x \<noteq> CHR ''M''" and "hd x \<noteq> CHR ''D''"
proof -
  from assms show ne: "x \<noteq> []" by (simp add: plain_def)
  from assms show "CHR ''%'' \<notin> set x" by (auto simp: plain_def)
  from ne have "hd x \<in> set x" by simp
  with assms have h: "hd x \<in> set ''-0123456789''" unfolding plain_def by blast
  from h show "hd x \<noteq> CHR ''Y''" by auto
  from h show "hd x \<noteq> CHR ''M''" by auto
  from h show "hd x \<noteq> CHR ''D''" by auto
qed

lemma Replace_percent_hd:
  assumes "X \<noteq> []" and "hd X \<noteq> t"
  shows "strings_Replace (CHR ''%'' # X) [CHR ''%'', t] new
           = CHR ''%'' # strings_Replace X [CHR ''%'', t] new"
proof -
  from assms obtain u us where "X = u # us" and "u \<noteq> t" by (cases X) auto
  then show ?thesis by (simp add: Replace_percent)
qed

lemma three_passes:
  assumes "plain y" and "plain m" and "plain d"
  shows "strings_Replace (strings_Replace (strings_Replace s ''%Y'' y) ''%M'' m) ''%D'' d
           = substitute_tokens y m d s"
  using assms
proof (induction y m d s rule: substitute_tokens.induct)
  case (1 y m d c1 c2 cs)
  note py = plain_facts [OF \<open>plain y\<close>] and pm = plain_facts [OF \<open>plain m\<close>]
    and pd = plain_facts [OF \<open>plain d\<close>]
  consider (other) "c1 \<noteq> CHR ''%''"
    | (Y) "c1 = CHR ''%''" "c2 = CHR ''Y''"
    | (M) "c1 = CHR ''%''" "c2 = CHR ''M''"
    | (D) "c1 = CHR ''%''" "c2 = CHR ''D''"
    | (percent) "c1 = CHR ''%''" "c2 \<noteq> CHR ''Y''" "c2 \<noteq> CHR ''M''" "c2 \<noteq> CHR ''D''"
    by blast
  then show ?case
  proof cases
    case other
    with 1 show ?thesis by simp
  next
    case Y
    with 1 py pm show ?thesis by (simp add: Replace_append)
  next
    case M
    with 1 pm show ?thesis by (simp add: Replace_append)
  next
    case D
    with 1 show ?thesis by simp
  next
    case percent
    define X where "X = strings_Replace (c2 # cs) ''%Y'' y"
    define X' where "X' = strings_Replace X ''%M'' m"
    have X: "X \<noteq> []" "hd X = c2 \<or> hd X = hd y"
      using Replace_hd [of "c2 # cs" y "''%Y''"] py(1) by (simp_all add: X_def)
    then have X': "X' \<noteq> []" "hd X' = hd X \<or> hd X' = hd m"
      using Replace_hd [of X m "''%M''"] pm(1) by (simp_all add: X'_def)
    have "strings_Replace (c1 # c2 # cs) ''%Y'' y = CHR ''%'' # X"
      using percent by (simp add: X_def)
    moreover have "strings_Replace (CHR ''%'' # X) ''%M'' m = CHR ''%'' # X'"
      unfolding X'_def using X percent py by (intro Replace_percent_hd) auto
    moreover have "strings_Replace (CHR ''%'' # X') ''%D'' d
        = CHR ''%'' # strings_Replace X' ''%D'' d"
      using X X' percent py pm by (intro Replace_percent_hd) auto
    moreover have "strings_Replace X' ''%D'' d = substitute_tokens y m d (c2 # cs)"
      unfolding X'_def X_def using 1 percent by simp
    ultimately show ?thesis using percent by simp
  qed
qed simp_all

lemma digit_plain: "d < 10 \<Longrightarrow> digit d \<in> set ''0123456789''"
proof -
  assume "d < 10"
  then have "d = 0 \<or> d = 1 \<or> d = 2 \<or> d = 3 \<or> d = 4 \<or> d = 5 \<or> d = 6
    \<or> d = 7 \<or> d = 8 \<or> d = 9"
    by arith
  then show ?thesis by (elim disjE) (simp_all add: digit_def)
qed

lemma decimal_digits: "decimal n \<noteq> [] \<and> set (decimal n) \<subseteq> set ''0123456789''"
proof (induction n rule: decimal.induct)
  case (1 n)
  show ?case
  proof (cases "n < 10")
    case True
    have "decimal n = [digit n]"
      using True by (subst decimal.simps) simp
    then show ?thesis using digit_plain [OF True] by simp
  next
    case False
    have "n mod 10 < 10" by simp
    then have d: "digit (n mod 10) \<in> set ''0123456789''" by (rule digit_plain)
    have e: "decimal n = decimal (n div 10) @ [digit (n mod 10)]"
      using False by (subst decimal.simps) simp
    from 1 [OF False] have "set (decimal (n div 10)) \<subseteq> set ''0123456789''" by blast
    with d show ?thesis unfolding e by simp
  qed
qed

lemma plain_zero_padded: "plain (zero_padded v k)"
proof -
  have ne: "zero_padded v k \<noteq> []"
    using decimal_digits [of k] by (simp add: zero_padded_def)
  have "set (zero_padded v k) \<subseteq> insert CHR ''0'' (set (decimal k))"
    by (auto simp: zero_padded_def)
  moreover have "set (decimal k) \<subseteq> set ''0123456789''"
    using decimal_digits [of k] by blast
  moreover have "insert CHR ''0'' (set ''0123456789'') \<subseteq> set ''-0123456789''"
    by (simp add: subset_iff)
  ultimately have "set (zero_padded v k) \<subseteq> set ''-0123456789''"
    by blast
  with ne show ?thesis unfolding plain_def by blast
qed

lemma plain_Sprintf_0d: "plain (Sprintf_0d w n)"
proof (cases "n < 0")
  case True
  have "set (zero_padded (w - 1) (nat (- n))) \<subseteq> set ''-0123456789''"
    using plain_zero_padded [of "w - 1" "nat (- n)"] unfolding plain_def by blast
  moreover have "CHR ''-'' \<in> set ''-0123456789''" by simp
  ultimately have "set (CHR ''-'' # zero_padded (w - 1) (nat (- n))) \<subseteq> set ''-0123456789''"
    by (metis insert_subset list.simps(15))
  with True show ?thesis unfolding plain_def Sprintf_0d_def by simp
next
  case False
  then show ?thesis using plain_zero_padded [of w "nat n"] by (simp add: Sprintf_0d_def)
qed


lemma processCommand_eq:
  "processCommand command dt =
     substitute_tokens (Sprintf_0d 4 (Year dt)) (Sprintf_0d 2 (Month dt))
       (Sprintf_0d 2 (Day dt)) command"
  unfolding processCommand_def Let_def
  by (rule three_passes) (rule plain_Sprintf_0d)+

lemma decimal_lt10: "n < 10 \<Longrightarrow> decimal n = [digit n]"
  by (subst decimal.simps) simp

lemma decimal_ge10: "10 \<le> n \<Longrightarrow> decimal n = decimal (n div 10) @ [digit (n mod 10)]"
  by (subst decimal.simps) simp

lemma digit_0: "digit 0 = CHR ''0''"
  by (simp add: digit_def)

lemma zero_padded_2:
  assumes "n < 100"
  shows "zero_padded 2 n = [digit (n div 10), digit (n mod 10)]"
proof (cases "n < 10")
  case True
  then have "decimal n = [digit n]" by (rule decimal_lt10)
  moreover have "replicate (2 - 1) CHR ''0'' = [CHR ''0'']" by simp
  ultimately show ?thesis using True by (simp add: zero_padded_def digit_0)
next
  case False
  then have "decimal n = decimal (n div 10) @ [digit (n mod 10)]"
    by (intro decimal_ge10) simp
  moreover have "decimal (n div 10) = [digit (n div 10)]"
    using assms by (intro decimal_lt10) simp
  ultimately show ?thesis by (simp add: zero_padded_def)
qed

lemma zero_padded_4:
  assumes "n < 10000"
  shows "zero_padded 4 n =
    [digit (n div 1000), digit (n div 100 mod 10), digit (n div 10 mod 10), digit (n mod 10)]"
proof -
  consider "n < 10" | "10 \<le> n" "n < 100" | "100 \<le> n" "n < 1000" | "1000 \<le> n"
    by linarith
  then show ?thesis
  proof cases
    case 1
    then have "decimal n = [digit n]" by (rule decimal_lt10)
    moreover have "replicate (4 - 1) CHR ''0'' = ''000''" by (simp add: eval_nat_numeral)
    ultimately show ?thesis using 1 by (simp add: zero_padded_def digit_0)
  next
    case 2
    then have "decimal n = [digit (n div 10), digit (n mod 10)]"
      by (simp add: decimal_ge10 decimal_lt10)
    moreover have "replicate (4 - 2) CHR ''0'' = ''00''" by (simp add: eval_nat_numeral)
    ultimately show ?thesis using 2 by (simp add: zero_padded_def digit_0)
  next
    case 3
    then have "n div 10 < 100" "10 \<le> n div 10" "n div 10 div 10 < 10" by simp_all
    with 3 have "decimal n = [digit (n div 100), digit (n div 10 mod 10), digit (n mod 10)]"
      by (simp add: decimal_ge10 decimal_lt10 div_mult2_eq [symmetric])
    moreover have "replicate (4 - 3) CHR ''0'' = ''0''" by (simp add: eval_nat_numeral)
    moreover have "n div 100 mod 10 = n div 100" "n div 1000 = 0" using 3 by simp_all
    ultimately show ?thesis by (simp add: zero_padded_def digit_0)
  next
    case 4
    then have a: "10 \<le> n div 10" "10 \<le> n div 10 div 10" "n div 10 div 10 div 10 < 10"
      using assms by simp_all
    have "decimal n = decimal (n div 10) @ [digit (n mod 10)]"
      using 4 by (intro decimal_ge10) simp
    also have "decimal (n div 10) = decimal (n div 10 div 10) @ [digit (n div 10 mod 10)]"
      using a by (intro decimal_ge10) simp
    also have "decimal (n div 10 div 10) =
        decimal (n div 10 div 10 div 10) @ [digit (n div 10 div 10 mod 10)]"
      using a by (intro decimal_ge10) simp
    also have "decimal (n div 10 div 10 div 10) = [digit (n div 10 div 10 div 10)]"
      using a by (intro decimal_lt10) simp
    finally have "decimal n = [digit (n div 1000), digit (n div 100 mod 10),
        digit (n div 10 mod 10), digit (n mod 10)]"
      by (simp add: div_mult2_eq [symmetric])
    then show ?thesis by (simp add: zero_padded_def)
  qed
qed

text \<open>
  Claim C3. The command that is dispatched is the template with every occurrence of
  \<^verbatim>\<open>%Y\<close>, \<^verbatim>\<open>%M\<close> and \<^verbatim>\<open>%D\<close> replaced by the year, the month and the day as
  \<^verbatim>\<open>%04d\<close>, \<^verbatim>\<open>%02d\<close> and \<^verbatim>\<open>%02d\<close> print them and every other character kept; for a
  year from 0 to 9999 these are its four decimal digits, and for a month and a day below
  100 their two decimal digits, with leading zeros.
\<close>

theorem processCommand_substitutes:
  "processCommand command dt =
     substitute_tokens (Sprintf_0d 4 (Year dt)) (Sprintf_0d 2 (Month dt))
       (Sprintf_0d 2 (Day dt)) command
   \<and> (0 \<le> Year dt \<and> Year dt < 10000 \<longrightarrow>
        Sprintf_0d 4 (Year dt) =
          [digit (nat (Year dt) div 1000), digit (nat (Year dt) div 100 mod 10),
           digit (nat (Year dt) div 10 mod 10), digit (nat (Year dt) mod 10)])
   \<and> (0 \<le> Month dt \<and> Month dt < 100 \<longrightarrow>
        Sprintf_0d 2 (Month dt) = [digit (nat (Month dt) div 10), digit (nat (Month dt) mod 10)])
   \<and> (0 \<le> Day dt \<and> Day dt < 100 \<longrightarrow>
        Sprintf_0d 2 (Day dt) = [digit (nat (Day dt) div 10), digit (nat (Day dt) mod 10)])"
proof (intro conjI impI)
  show "processCommand command dt =
     substitute_tokens (Sprintf_0d 4 (Year dt)) (Sprintf_0d 2 (Month dt))
       (Sprintf_0d 2 (Day dt)) command"
    by (rule processCommand_eq)
next
  assume "0 \<le> Year dt \<and> Year dt < 10000"
  then have "nat (Year dt) < 10000" and "\<not> Year dt < 0" by arith+
  then show "Sprintf_0d 4 (Year dt) =
          [digit (nat (Year dt) div 1000), digit (nat (Year dt) div 100 mod 10),
           digit (nat (Year dt) div 10 mod 10), digit (nat (Year dt) mod 10)]"
    by (simp add: Sprintf_0d_def zero_padded_4)
next
  assume "0 \<le> Month dt \<and> Month dt < 100"
  then have "nat (Month dt) < 100" and "\<not> Month dt < 0" by arith+
  then show "Sprintf_0d 2 (Month dt) = [digit (nat (Month dt) div 10), digit (nat (Month dt) mod 10)]"
    by (simp add: Sprintf_0d_def zero_padded_2)
next
  assume "0 \<le> Day dt \<and> Day dt < 100"
  then have "nat (Day dt) < 100" and "\<not> Day dt < 0" by arith+
  then show "Sprintf_0d 2 (Day dt) = [digit (nat (Day dt) div 10), digit (nat (Day dt) mod 10)]"
    by (simp add: Sprintf_0d_def zero_padded_2)
qed

theorem processCommand_substitutes_witness:
  "processCommand ''say \"Hello %Y-%M-%D\"'' \<lparr>Year = 2020, Month = 11, Day = 5\<rparr>
     = ''say \"Hello 2020-11-05\"''
   \<and> processCommand ''screenshot giant screenshot-%Y%M%D %Y'' \<lparr>Year = 2020, Month = 11, Day = 21\<rparr>
     = ''screenshot giant screenshot-20201121 2020''"
proof -
  note a = processCommand_substitutes
    [of "''say \"Hello %Y-%M-%D\"''" "\<lparr>Year = 2020, Month = 11, Day = 5\<rparr>"]
  note b = processCommand_substitutes
    [of "''screenshot giant screenshot-%Y%M%D %Y''" "\<lparr>Year = 2020, Month = 11, Day = 21\<rparr>"]
  from a have y: "Sprintf_0d 4 2020 = ''2020''" and m: "Sprintf_0d 2 11 = ''11''"
    and d: "Sprintf_0d 2 5 = ''05''"
    by (simp_all add: digit_def)
  from b have d': "Sprintf_0d 2 21 = ''21''"
    by (simp add: digit_def)
  from a have "processCommand ''say \"Hello %Y-%M-%D\"'' \<lparr>Year = 2020, Month = 11, Day = 5\<rparr>
     = substitute_tokens ''2020'' ''11'' ''05'' ''say \"Hello %Y-%M-%D\"''"
    using y m d by simp
  moreover from b have "processCommand ''screenshot giant screenshot-%Y%M%D %Y''
       \<lparr>Year = 2020, Month = 11, Day = 21\<rparr>
     = substitute_tokens ''2020'' ''11'' ''21'' ''screenshot giant screenshot-%Y%M%D %Y''"
    using y m d' by simp
  ultimately show ?thesis by simp
qed

section \<open>The framer and the split of the stream into reads\<close>

lemma of_nat_length_less:
  "length chunk < 65536 \<Longrightarrow>
   (of_nat (length chunk) < (w :: 16 word)) = (length chunk < unat w)"
  by (simp add: word_less_nat_alt unat_of_nat_length)

lemma processChunk_wait:
  assumes "length chunk < 65536"
    and "length chunk < 2 \<or> length chunk < unat (Uint16 (take 2 chunk))"
  shows "processChunk server chunk = NeedMore server chunk"
  using assms by (subst processChunk.simps) (auto simp: Let_def of_nat_length_less)

lemma processChunk_packet:
  assumes "unat (Uint16 (take 2 chunk)) = n" and "3 \<le> n" and "n \<le> length chunk"
    and "length chunk < 65536"
  shows "processChunk server chunk =
    (case handlePacket
            (server\<lparr>dispatched := dispatched server @
               [(unat (chunk ! 2), take (n - 3) (drop 3 chunk))]\<rparr>)
            (unat (chunk ! 2)) (take (n - 3) (drop 3 chunk)) of
       Panics e \<Rightarrow> Stopped (Crashed e (server\<lparr>dispatched := dispatched server @
               [(unat (chunk ! 2), take (n - 3) (drop 3 chunk))]\<rparr>))
     | ShutDown server' \<Rightarrow> Stopped (Disconnected server')
     | Proceed server' \<Rightarrow> processChunk server' (drop n chunk))"
proof -
  have a: "\<not> length chunk < 2" using assms by simp
  have b: "\<not> of_nat (length chunk) < Uint16 (take 2 chunk)"
    using assms by (simp add: of_nat_length_less)
  have c: "index chunk 2 = Inr (chunk ! 2)"
    using assms by (simp add: index_def)
  have d: "slice chunk 3 (int n) = Inr (take (n - 3) (drop 3 chunk))"
    using assms(2,3) unfolding slice_def by (simp add: nat_diff_distrib')
  show ?thesis
    by (subst processChunk.simps) (simp add: a b c d Let_def assms(1) split: handled.split)
qed


lemma take2_append: "2 \<le> length chunk \<Longrightarrow> take 2 (chunk @ later) = take 2 chunk"
  by simp

lemma processChunk_append:
  assumes "valid_stream (chunk @ later)" and "length (chunk @ later) < 65536"
  shows "(\<forall>server' rest. processChunk server chunk = NeedMore server' rest \<longrightarrow>
            processChunk server (chunk @ later) = processChunk server' (rest @ later)
            \<and> valid_stream (rest @ later) \<and> length rest \<le> length chunk
            \<and> processChunk server' rest = NeedMore server' rest)
       \<and> (\<forall>r. processChunk server chunk = Stopped r \<longrightarrow>
            processChunk server (chunk @ later) = Stopped r)"
  using assms
proof (induction "length chunk" arbitrary: chunk server rule: less_induct)
  case less
  have len: "length chunk < 65536" using less.prems(2) by simp
  show ?case
  proof (cases "length chunk < 2 \<or> length chunk < unat (Uint16 (take 2 chunk))")
    case True
    then have "processChunk server chunk = NeedMore server chunk"
      using len by (intro processChunk_wait) auto
    with less.prems show ?thesis by simp
  next
    case False
    define n where "n = unat (Uint16 (take 2 chunk))"
    from False have two: "2 \<le> length chunk" and nle: "n \<le> length chunk"
      by (simp_all add: n_def)
    from two have t2: "take 2 (chunk @ later) = take 2 chunk" by simp
    from less.prems(1) two have n3: "3 \<le> n"
      and v: "valid_stream (drop n (chunk @ later))"
      by (subst (asm) valid_stream.simps, simp add: t2 n_def Let_def split: if_splits)+
    have same: "(chunk @ later) ! 2 = chunk ! 2"
      "take (n - 3) (drop 3 (chunk @ later)) = take (n - 3) (drop 3 chunk)"
      "drop n (chunk @ later) = drop n chunk @ later"
      using n3 nle by (simp_all add: nth_append)
    have p1: "processChunk server chunk =
      (case handlePacket
            (server\<lparr>dispatched := dispatched server @
               [(unat (chunk ! 2), take (n - 3) (drop 3 chunk))]\<rparr>)
            (unat (chunk ! 2)) (take (n - 3) (drop 3 chunk)) of
         Panics e \<Rightarrow> Stopped (Crashed e (server\<lparr>dispatched := dispatched server @
               [(unat (chunk ! 2), take (n - 3) (drop 3 chunk))]\<rparr>))
       | ShutDown server' \<Rightarrow> Stopped (Disconnected server')
       | Proceed server' \<Rightarrow> processChunk server' (drop n chunk))"
      using n3 nle len by (intro processChunk_packet) (simp_all add: n_def)
    have p2: "processChunk server (chunk @ later) =
      (case handlePacket
            (server\<lparr>dispatched := dispatched server @
               [(unat (chunk ! 2), take (n - 3) (drop 3 chunk))]\<rparr>)
            (unat (chunk ! 2)) (take (n - 3) (drop 3 chunk)) of
         Panics e \<Rightarrow> Stopped (Crashed e (server\<lparr>dispatched := dispatched server @
               [(unat (chunk ! 2), take (n - 3) (drop 3 chunk))]\<rparr>))
       | ShutDown server' \<Rightarrow> Stopped (Disconnected server')
       | Proceed server' \<Rightarrow> processChunk server' (drop n chunk @ later))"
    proof -
      have h1: "unat (Uint16 (take 2 (chunk @ later))) = n" unfolding t2 n_def by (rule refl)
      have h3: "n \<le> length (chunk @ later)" using nle by simp
      from processChunk_packet [OF h1 n3 h3 less.prems(2), of server]
      show ?thesis unfolding same .
    qed
    have shorter: "length (drop n chunk) < length chunk"
      using n3 nle by simp
    have IH: "(\<forall>server' rest. processChunk s (drop n chunk) = NeedMore server' rest \<longrightarrow>
            processChunk s (drop n chunk @ later) = processChunk server' (rest @ later)
            \<and> valid_stream (rest @ later) \<and> length rest \<le> length (drop n chunk)
            \<and> processChunk server' rest = NeedMore server' rest)
       \<and> (\<forall>r. processChunk s (drop n chunk) = Stopped r \<longrightarrow>
            processChunk s (drop n chunk @ later) = Stopped r)" for s
    proof -
      have v': "valid_stream (drop n chunk @ later)" using v unfolding same(3) .
      have l': "length (drop n chunk @ later) < 65536" using less.prems(2) by simp
      show ?thesis by (rule less.hyps [OF shorter v' l'])
    qed
    show ?thesis
    proof (cases "handlePacket
            (server\<lparr>dispatched := dispatched server @
               [(unat (chunk ! 2), take (n - 3) (drop 3 chunk))]\<rparr>)
            (unat (chunk ! 2)) (take (n - 3) (drop 3 chunk))")
      case (Proceed s)
      with p1 p2 IH [of s] show ?thesis by auto
    next
      case (ShutDown s)
      with p1 p2 show ?thesis by simp
    next
      case (Panics e)
      with p1 p2 show ?thesis by simp
    qed
  qed
qed

text \<open>
  As long as the receive buffer stays below 65536 bytes, the framer does not depend on
  how a valid stream is cut into reads: any split gives what the whole stream gives in
  one piece, and so any two splits of the same stream agree.
\<close>

lemma listenSocket_loop_whole:
  assumes "processChunk server chunk = NeedMore server chunk"
    and "valid_stream (chunk @ concat chunks)"
    and "length (chunk @ concat chunks) < 65536"
  shows "listenSocket_loop server chunk (map Data chunks)
           = listenSocket_loop server chunk [Data (concat chunks)]"
  using assms
proof (induction chunks arbitrary: server chunk)
  case Nil
  then show ?case by simp
next
  case (Cons a chunks)
  have v: "valid_stream ((chunk @ a) @ concat chunks)"
    and l: "length ((chunk @ a) @ concat chunks) < 65536"
    using Cons.prems by simp_all
  note A = processChunk_append [OF v l, of server]
  show ?case
  proof (cases "processChunk server (chunk @ a)")
    case (NeedMore server' rest)
    with A have whole: "processChunk server ((chunk @ a) @ concat chunks)
          = processChunk server' (rest @ concat chunks)"
      and v': "valid_stream (rest @ concat chunks)"
      and l': "length rest \<le> length (chunk @ a)"
      and stay: "processChunk server' rest = NeedMore server' rest"
      by blast+
    from l l' have "length (rest @ concat chunks) < 65536" by simp
    from Cons.IH [OF stay v' this]
    have "listenSocket_loop server' rest (map Data chunks)
            = listenSocket_loop server' rest [Data (concat chunks)]" .
    with NeedMore whole show ?thesis by simp
  next
    case (Stopped r)
    with A have "processChunk server ((chunk @ a) @ concat chunks) = Stopped r" by blast
    with Stopped show ?thesis by simp
  qed
qed

lemma split_invariant_below_64K:
  assumes "valid_stream (concat chunks)" and "length (concat chunks) < 65536"
  shows "listenSocket server (map Data chunks) = listenSocket server [Data (concat chunks)]"
  unfolding listenSocket_def
  using assms by (intro listenSocket_loop_whole) (simp_all add: processChunk_short)

lemma wait_reads:
  "\<lbrakk>2 \<le> length chunk; unat (Uint16 (take 2 chunk)) = 65535; length chunk + k * 1024 < 65535\<rbrakk>
   \<Longrightarrow> listenSocket_loop server chunk (replicate k (Data (replicate 1024 0)) @ reads)
       = listenSocket_loop server (chunk @ replicate (k * 1024) 0) reads"
proof (induction k arbitrary: chunk)
  case 0
  then show ?case by simp
next
  case (Suc k)
  have t: "take 2 (chunk @ replicate 1024 0) = take 2 chunk" using Suc.prems(1) by simp
  have w: "processChunk server (chunk @ replicate 1024 0) = NeedMore server (chunk @ replicate 1024 0)"
    using Suc.prems by (intro processChunk_wait) (simp_all only: t, simp_all)
  have "listenSocket_loop server (chunk @ replicate 1024 0)
          (replicate k (Data (replicate 1024 0)) @ reads)
        = listenSocket_loop server ((chunk @ replicate 1024 0) @ replicate (k * 1024) 0) reads"
    using Suc.prems by (intro Suc.IH) (simp_all only: t, simp_all)
  moreover have "(chunk @ replicate 1024 0) @ replicate (k * 1024) 0
      = chunk @ replicate (Suc k * 1024) 0"
    by (simp add: replicate_add [symmetric])
  ultimately show ?case using w by simp
qed

text \<open>
  At 65536 bytes the comparison \<^verbatim>\<open>packetSize > uint16(len(chunk))\<close> no longer compares
  with the length of the buffer but with its low 16 bits.
\<close>

lemma concat_replicate_replicate:
  "concat (replicate k (replicate m x)) = replicate (k * m) x"
  by (induction k) (simp_all add: replicate_add)

lemma bytes_read_first_reads:
  "bytes_read first_reads = [255, 255, 103] @ replicate 64509 0"
  by (simp add: bytes_read_def first_reads_def concat_replicate_replicate
      replicate_add [symmetric])

lemma bytes_read_splits:
  "bytes_read aligned_split = [255, 255, 103] @ replicate 65532 0 @ [3, 0, 103]"
  "bytes_read shifted_split = [255, 255, 103] @ replicate 65532 0 @ [3, 0, 103]"
proof -
  have "bytes_read aligned_split = bytes_read first_reads @ replicate 1023 0 @ [3, 0, 103]"
    by (simp add: bytes_read_def aligned_split_def)
  also have "\<dots> = [255, 255, 103] @ (replicate 64509 0 @ replicate 1023 0) @ [3, 0, 103]"
    by (simp add: bytes_read_first_reads)
  also have "replicate 64509 (0::byte) @ replicate 1023 0 = replicate 65532 0"
    by (simp add: replicate_add [symmetric])
  finally show "bytes_read aligned_split = [255, 255, 103] @ replicate 65532 0 @ [3, 0, 103]" .
  have "bytes_read shifted_split = bytes_read first_reads @ replicate 1023 0 @ [3, 0, 103]"
    by (simp add: bytes_read_def shifted_split_def)
  also have "\<dots> = [255, 255, 103] @ (replicate 64509 0 @ replicate 1023 0) @ [3, 0, 103]"
    by (simp add: bytes_read_first_reads)
  also have "replicate 64509 (0::byte) @ replicate 1023 0 = replicate 65532 0"
    by (simp add: replicate_add [symmetric])
  finally show "bytes_read shifted_split = [255, 255, 103] @ replicate 65532 0 @ [3, 0, 103]" .
qed

lemma Uint16_ffff: "unat (Uint16 (take 2 (255 # 255 # rest))) = 65535"
  by (simp add: Uint16_def)

lemma valid_example: "valid_stream ([255, 255, 103] @ replicate 65532 0 @ [3, 0, 103])"
proof -
  have "valid_stream [3, 0, 103]"
    by (simp add: valid_stream.simps Uint16_def)
  then show ?thesis
    by (subst valid_stream.simps) (simp add: Uint16_def)
qed

lemma first_reads_wait:
  "listenSocket_loop server [] (map Data first_reads @ reads)
     = listenSocket_loop server ([255, 255, 103] @ replicate 64509 0) reads"
proof -
  let ?head = "[255, 255, 103] @ replicate 1021 (0::byte)"
  have "processChunk server ?head = NeedMore server ?head"
    by (intro processChunk_wait) (simp_all add: Uint16_def)
  then have "listenSocket_loop server [] (map Data first_reads @ reads)
      = listenSocket_loop server ?head (replicate 62 (Data (replicate 1024 0)) @ reads)"
    by (simp add: first_reads_def)
  also have "\<dots> = listenSocket_loop server (?head @ replicate (62 * 1024) 0) reads"
    by (intro wait_reads) (simp_all add: Uint16_def)
  also have "?head @ replicate (62 * 1024) 0 = [255, 255, 103] @ replicate 64509 0"
    by (simp add: replicate_add [symmetric])
  finally show ?thesis .
qed

lemma processChunk_PROTOCOL:
  assumes "unat (Uint16 (take 2 chunk)) = n" and "3 \<le> n" and "n \<le> length chunk"
    and "length chunk < 65536" and "chunk ! 2 = 103"
  shows "processChunk server chunk =
     processChunk (server\<lparr>dispatched := dispatched server @ [(103, take (n - 3) (drop 3 chunk))]\<rparr>)
       (drop n chunk)"
  by (subst processChunk_packet [OF assms(1-4)])
     (simp add: assms(5) handlePacket_def adminPacketServerPROTOCOL_def)

lemma listenSocket_loop_Data:
  "\<lbrakk>chunk @ socketData = buffer; processChunk server buffer = NeedMore server' chunk'\<rbrakk>
   \<Longrightarrow> listenSocket_loop server chunk (Data socketData # reads)
       = listenSocket_loop server' chunk' reads"
  by simp

lemma aligned_run:
  "listenSocket server (map Data aligned_split)
     = Blocked (server\<lparr>dispatched := dispatched server @
                  [(103, replicate 65532 0), (103, [])]\<rparr>) []"
proof -
  let ?big = "[255, 255, 103] @ replicate 65532 (0::byte)"
  let ?s1 = "server\<lparr>dispatched := dispatched server @ [(103, replicate 65532 0)]\<rparr>"
  have buf: "([255, 255, 103] @ replicate 64509 0) @ replicate 1023 (0::byte) = ?big"
    by (simp add: replicate_add [symmetric])
  have "processChunk server ?big = processChunk ?s1 (drop 65535 ?big)"
    using processChunk_PROTOCOL [of ?big 65535 server] by (simp add: Uint16_def)
  then have one: "processChunk server ?big = NeedMore ?s1 []"
    by (simp add: processChunk_short)
  have "processChunk ?s1 [3, 0, 103]
      = processChunk (?s1\<lparr>dispatched := dispatched ?s1 @ [(103, [])]\<rparr>) []"
    using processChunk_PROTOCOL [of "[3, 0, 103]" 3 ?s1] by (simp add: Uint16_def)
  then have two: "processChunk ?s1 [3, 0, 103]
      = NeedMore (server\<lparr>dispatched := dispatched server @
                  [(103, replicate 65532 0), (103, [])]\<rparr>) []"
    by (simp add: processChunk_short)
  have "listenSocket server (map Data aligned_split)
      = listenSocket_loop server ([255, 255, 103] @ replicate 64509 0)
          [Data (replicate 1023 0), Data [3, 0, 103]]"
    using first_reads_wait [of server "[Data (replicate 1023 0), Data [3, 0, 103]]"]
    by (simp add: listenSocket_def aligned_split_def)
  also have "\<dots> = listenSocket_loop ?s1 [] [Data [3, 0, 103]]"
    by (rule listenSocket_loop_Data [OF buf one])
  also have "\<dots> = Blocked (server\<lparr>dispatched := dispatched server @
                  [(103, replicate 65532 0), (103, [])]\<rparr>) []"
    using listenSocket_loop_Data [OF _ two, of "[]" "[3, 0, 103]" "[]"] by simp
  finally show ?thesis .
qed

lemma shifted_run:
  "listenSocket server (map Data shifted_split)
     = Blocked server ([255, 255, 103] @ replicate 65532 0 @ [3, 0, 103])"
proof -
  let ?b1 = "[255, 255, 103] @ replicate 65532 (0::byte) @ [3]"
  let ?b2 = "[255, 255, 103] @ replicate 65532 (0::byte) @ [3, 0, 103]"
  have buf: "([255, 255, 103] @ replicate 64509 0) @ replicate 1023 (0::byte) @ [3] = ?b1"
    by (simp add: replicate_add [symmetric])
  have l1: "length ?b1 = 65536" and l2: "length ?b2 = 65538" by simp_all
  have w1: "processChunk server ?b1 = NeedMore server ?b1"
    by (rule processChunk_incomplete) (simp_all add: Uint16_def)
  have w2: "processChunk server ?b2 = NeedMore server ?b2"
    by (rule processChunk_incomplete) (simp_all add: Uint16_def)
  have "listenSocket server (map Data shifted_split)
      = listenSocket_loop server ([255, 255, 103] @ replicate 64509 0)
          [Data (replicate 1023 0 @ [3]), Data [0, 103]]"
    using first_reads_wait [of server "[Data (replicate 1023 0 @ [3]), Data [0, 103]]"]
    by (simp add: listenSocket_def shifted_split_def)
  also have "\<dots> = listenSocket_loop server ?b1 [Data [0, 103]]"
    by (rule listenSocket_loop_Data [OF buf w1])
  also have "\<dots> = listenSocket_loop server ?b2 []"
    by (rule listenSocket_loop_Data [OF _ w2]) simp
  finally show ?thesis by simp
qed

text \<open>
  Claim C1. The two splits carry the same valid stream in reads of at most 1024 bytes.
  Fed the first, the reader cuts out both packets and keeps nothing. Fed the second, it
  cuts out nothing: when the long packet is complete the buffer holds 65536 bytes, whose
  length truncated to 16 bits is 0, so the reader waits; it still waits at 65538 bytes,
  with two complete packets in the buffer.
\<close>

theorem split_changes_dispatch:
  "bytes_read aligned_split = bytes_read shifted_split
   \<and> valid_stream (bytes_read aligned_split)
   \<and> list_all (\<lambda>c. length c \<le> 1024) (aligned_split @ shifted_split)
   \<and> listenSocket server (map Data aligned_split)
       = Blocked (server\<lparr>dispatched := dispatched server @
                    [(103, replicate 65532 0), (103, [])]\<rparr>) []
   \<and> listenSocket server (map Data shifted_split)
       = Blocked server (bytes_read shifted_split)"
proof (intro conjI)
  show "bytes_read aligned_split = bytes_read shifted_split"
    by (simp only: bytes_read_splits)
  show "valid_stream (bytes_read aligned_split)"
    by (simp only: bytes_read_splits valid_example)
  show "list_all (\<lambda>c. length c \<le> 1024) (aligned_split @ shifted_split)"
    by (simp add: aligned_split_def shifted_split_def first_reads_def list_all_iff)
  show "listenSocket server (map Data aligned_split)
       = Blocked (server\<lparr>dispatched := dispatched server @
                    [(103, replicate 65532 0), (103, [])]\<rparr>) []"
    by (rule aligned_run)
  show "listenSocket server (map Data shifted_split)
       = Blocked server (bytes_read shifted_split)"
    by (simp only: bytes_read_splits shifted_run)
qed

section \<open>The cached state across connections\<close>

text \<open>
  Claim C10, the claim as stated. A first connection delivers a Welcome packet (server
  name "A", version "1", dedicated, map "m") and then ends with a read error; the loop
  dials again. On the second connection, before any packet has arrived, the cached state
  still holds what the first connection decoded; it is not empty.
\<close>

theorem cached_state_survives_reconnect:
  "Connect newServer
     [DialOk [Data ([23, 0, 104] @ [0x41, 0, 0x31, 0, 1, 0x6D, 0, 1, 2, 3, 4, 5, 0, 0, 0, 0, 64, 0, 128, 0]),
              ReadError (OtherError ''EOF'')],
      DialOk []] ''pw'' ''bot'' ''1''
   = Idle \<lparr>connection = Some 1, ServerName = ''A'', ServerVersion = ''1'',
     ServerDedicated = True, MapName = ''m'', MapSeed = 67305985,
     MapLandscape = 5, MapX = 64, MapY = 128, rconDaily = [],
     rconMonthly = [], rconYearly = [],
     written =
       [(0, joinPacket ''pw'' ''bot'' ''1''),
        (0, [7, 0, 2, 0, 0, 2, 0]),
        (1, joinPacket ''pw'' ''bot'' ''1''),
        (1, [7, 0, 2, 0, 0, 2, 0])],
     signalled = 1,
     dispatched =
       [(104,
         [65, 0, 49, 0, 1, 109, 0, 1, 2, 3, 4, 5, 0, 0, 0, 0, 64, 0, 128,
          0])]\<rparr>
  []"
  by (simp add: Connect_def listenSocket_def establish_eq processChunk.simps handlePacket_def
      decodeWelcome_def extractString_def extractString_from.simps index_def slice_def
      Uint16_def Uint32_def string_of_bytes_def char_of_def bit_Suc_0_iff newServer_def
      adminPacketServerPROTOCOL_def adminPacketServerWELCOME_def Let_def)

text \<open>
  Claim C10, as amended. Nothing between two connections touches the cached state:
  neither the end of the reader on a read error, nor the shutdown branch, nor the setup
  of the next connection, so a connection on which nothing has arrived yet shows the
  cached state of before.
\<close>

theorem reconnect_keeps_cached_state:
  "cached_state (end_server (listenSocket_loop server chunk (ReadError err # reads)))
     = cached_state server
   \<and> (\<exists>server'. handlePacket server adminPacketServerSHUTDOWN packetData = ShutDown server'
          \<and> cached_state server' = cached_state server)
   \<and> (\<exists>server'. establish server conn password botName botVersion = Inr server'
          \<and> connection server' = Some conn \<and> cached_state server' = cached_state server)
   \<and> (\<exists>server'. Connect_loop server n (DialOk [] # dials) password botName botVersion
            = Idle server' []
          \<and> cached_state server' = cached_state server)"
  by (simp add: cached_state_def establish_eq listenSocket_def handlePacket_def
      adminPacketServerSHUTDOWN_def adminPacketServerPROTOCOL_def
      adminPacketServerWELCOME_def split: read_error.split)

end
